theory Spec2Isabelle
  imports Complex_Main "HOL-Library.Log_Nat"
begin

section \<open>Vasicek zero-coupon bond pricing: shallow embedding of \<open>main.py\<close>\<close>

text \<open>
  Conventions of the embedding.
  \<^item> A Python float (IEEE double) is a \<^typ>\<open>real\<close>: rounding error, overflow to infinity
    and NaN produced by overflow are not part of the model. The one place where an
    operation of the program has no real value at all, the mean of an empty sample,
    is kept: it is \<open>None\<close> (numpy's \<open>nan\<close>).
  \<^item> One float result is rounded to an integer, the quotient \<open>total_time / time_step\<close>
    that gives the number of steps; there the rounding of the double division decides
    the outcome. That quotient is the parameter \<open>float_div\<close> of the model, of which
    nothing is assumed: every theorem holds for whatever the division returns.
  \<^item> A Python int is an \<^typ>\<open>int\<close>; the elements of an integer numpy array are integers
    without a range.
  \<^item> An exception is a value \<open>Inl e\<close> of the result type \<open>pyerror + 'a\<close>.
  \<^item> The scrambled Sobol generator and the inverse normal distribution function are
    library code with a random result; they are parameters of the model.
\<close>

subsection \<open>Errors and numbers\<close>

datatype pyerror =
    KeyError string
  | AttributeError
  | OverflowError
  | ValueError
  | IndexError
  | ZeroDivisionError
  | TypeError

text \<open>A JSON number arrives as a Python int or a Python float.\<close>

datatype pynum = PyInt int | PyFloat real

fun num_val :: "pynum \<Rightarrow> real" where
  "num_val (PyInt i) = real_of_int i"
| "num_val (PyFloat x) = x"

subsection \<open>Module constants\<close>

definition KAPPA :: real where
  "KAPPA = 1 / 10"

definition THETA :: real where
  "THETA = 3 / 100"

definition MAX_SIMULATIONS :: int where
  "MAX_SIMULATIONS = 2 ^ 16"

subsection \<open>\<open>next_power_of_2\<close>\<close>

text \<open>
  \<^verbatim>\<open>return min(2 ** int(np.ceil(np.log2(n))), MAX_SIMULATIONS)\<close>

  \<open>np.log2\<close> converts its argument to an array first. A Python int from \<open>-2\<^sup>6\<^sup>3\<close> to
  \<open>2\<^sup>6\<^sup>4 - 1\<close> becomes a machine integer and then a double; any other int becomes an
  object array, on which \<open>np.log2\<close> raises TypeError.
  \<open>np.log2(0)\<close> is \<open>-inf\<close> and \<open>np.log2\<close> of a negative number is \<open>nan\<close>; \<open>np.ceil\<close> keeps
  both, and \<open>int\<close> raises OverflowError on the first and ValueError on the second.
  For \<open>n \<ge> 1\<close> the logarithm is non-negative, so the exponent is a natural number.
\<close>

definition next_power_of_2 :: "int \<Rightarrow> pyerror + int" where
  "next_power_of_2 n =
     (if n < - (2 ^ 63) \<or> 2 ^ 64 \<le> n then Inl TypeError
      else if n = 0 then Inl OverflowError
      else if n < 0 then Inl ValueError
      else Inr (min (2 ^ nat \<lceil>log 2 (real_of_int n)\<rceil>) MAX_SIMULATIONS))"

subsection \<open>Python's \<open>round\<close>\<close>

text \<open>
  \<open>round\<close> rounds to the nearest value and a tie to the even neighbour. With no digits
  argument the result is an int; with \<open>ndigits\<close> it is the float with that many decimals.
\<close>

definition round_half_even :: "real \<Rightarrow> int" where
  "round_half_even x =
     (let f = \<lfloor>x\<rfloor>; d = x - real_of_int f
      in if d < 1 / 2 then f
         else if 1 / 2 < d then f + 1
         else if even f then f else f + 1)"

definition py_round :: "real \<Rightarrow> nat \<Rightarrow> real" where
  "py_round x ndigits = real_of_int (round_half_even (x * 10 ^ ndigits)) / 10 ^ ndigits"

subsection \<open>\<open>vasicek_bond_price\<close>\<close>

definition vasicek_bond_price :: "real \<Rightarrow> real \<Rightarrow> real \<Rightarrow> real \<Rightarrow> real \<Rightarrow> real" where
  "vasicek_bond_price T r0 sigma kappa theta =
     (let B_T = (1 - exp (- kappa * T)) / kappa;
          A_T = exp ((theta - sigma ^ 2 / (2 * kappa ^ 2)) * (B_T - T)
                     - sigma ^ 2 * B_T ^ 2 / (4 * kappa))
      in A_T * exp (- B_T * r0))"

subsection \<open>The numpy operations the program uses\<close>

text \<open>
  A two-dimensional array has an element type, a number of columns (kept apart from the
  rows, so that an array without rows still has a shape) and its rows. \<open>np.full\<close> takes
  the element type from the fill value: a Python int gives an integer array, a Python
  float a \<open>float64\<close> array. Storing a float into an integer array truncates it toward zero.
\<close>

datatype dtype = float64 | int64

record ndarray2 =
  dtype :: dtype
  ncols :: nat
  rows :: "real list list"

fun np_full_dtype :: "pynum \<Rightarrow> dtype" where
  "np_full_dtype (PyInt i) = int64"
| "np_full_dtype (PyFloat x) = float64"

definition np_full :: "nat \<Rightarrow> nat \<Rightarrow> pynum \<Rightarrow> ndarray2" where
  "np_full n m fill_value =
     \<lparr>dtype = np_full_dtype fill_value, ncols = m,
      rows = replicate n (replicate m (num_val fill_value))\<rparr>"

definition trunc_toward_zero :: "real \<Rightarrow> int" where
  "trunc_toward_zero x = (if 0 \<le> x then \<lfloor>x\<rfloor> else \<lceil>x\<rceil>)"

fun astype :: "dtype \<Rightarrow> real \<Rightarrow> real" where
  "astype float64 x = x"
| "astype int64 x = real_of_int (trunc_toward_zero x)"

text \<open>\<open>a[:, j]\<close> read, and \<open>a[:, j] = vs\<close> written (with the cast to the array's type).\<close>

definition column :: "ndarray2 \<Rightarrow> nat \<Rightarrow> real list" where
  "column a j = map (\<lambda>row. row ! j) (rows a)"

definition set_column :: "ndarray2 \<Rightarrow> nat \<Rightarrow> real list \<Rightarrow> ndarray2" where
  "set_column a j vs =
     a\<lparr>rows := map2 (\<lambda>row v. row[j := astype (dtype a) v]) (rows a) vs\<rparr>"

text \<open>
  \<open>np.linspace(start, stop, num)\<close>: \<open>num\<close> equally spaced points with both ends; a
  negative \<open>num\<close> raises ValueError.
\<close>

definition np_linspace :: "real \<Rightarrow> real \<Rightarrow> int \<Rightarrow> pyerror + real list" where
  "np_linspace start stop num =
     (if num < 0 then Inl ValueError
      else if num = 1 then Inr [start]
      else Inr (map (\<lambda>j. start + real j * ((stop - start) / real_of_int (num - 1)))
                  [0..<nat num]))"

text \<open>\<open>np.diff(xs)\<close> is \<open>xs[1:] - xs[:-1]\<close>.\<close>

definition np_diff :: "real list \<Rightarrow> real list" where
  "np_diff xs = map2 (\<lambda>b a. b - a) (tl xs) (butlast xs)"

text \<open>\<open>a[:, :-1]\<close>: every column but the last.\<close>

definition drop_last_column :: "ndarray2 \<Rightarrow> ndarray2" where
  "drop_last_column a = a\<lparr>ncols := ncols a - 1, rows := map butlast (rows a)\<rparr>"

text \<open>
  \<open>a * v\<close> for a two-dimensional \<open>a\<close> and a one-dimensional \<open>v\<close>: the shapes \<open>(n, c)\<close> and
  \<open>(m,)\<close> broadcast when \<open>c = m\<close> or one of them is 1, and raise ValueError otherwise.
  The product with a float vector is a \<open>float64\<close> array.
\<close>

definition mul_broadcast :: "ndarray2 \<Rightarrow> real list \<Rightarrow> pyerror + ndarray2" where
  "mul_broadcast a v =
     (if ncols a = length v then
        Inr \<lparr>dtype = float64, ncols = ncols a,
             rows = map (\<lambda>row. map2 (\<lambda>x y. x * y) row v) (rows a)\<rparr>
      else if length v = 1 then
        Inr \<lparr>dtype = float64, ncols = ncols a,
             rows = map (\<lambda>row. map (\<lambda>x. x * v ! 0) row) (rows a)\<rparr>
      else if ncols a = 1 then
        Inr \<lparr>dtype = float64, ncols = length v,
             rows = map (\<lambda>row. map (\<lambda>y. row ! 0 * y) v) (rows a)\<rparr>
      else Inl ValueError)"

fun cumsum_from :: "real \<Rightarrow> real list \<Rightarrow> real list" where
  "cumsum_from acc [] = []"
| "cumsum_from acc (x # xs) = (acc + x) # cumsum_from (acc + x) xs"

definition np_cumsum_axis1 :: "ndarray2 \<Rightarrow> ndarray2" where
  "np_cumsum_axis1 a = a\<lparr>rows := map (cumsum_from 0) (rows a)\<rparr>"

definition map_array :: "(real \<Rightarrow> real) \<Rightarrow> ndarray2 \<Rightarrow> ndarray2" where
  "map_array f a = a\<lparr>rows := map (map f) (rows a)\<rparr>"

text \<open>\<open>a[:, -1]\<close>: the last column; IndexError when the array has no column.\<close>

definition last_column :: "ndarray2 \<Rightarrow> pyerror + real list" where
  "last_column a = (if ncols a = 0 then Inl IndexError else Inr (map last (rows a)))"

text \<open>
  \<open>np.mean\<close> and \<open>np.var\<close> (the latter with its default \<open>ddof = 0\<close>: the mean of the
  squared deviations from the mean). On an empty sample both are \<open>nan\<close>, here \<open>None\<close>.
\<close>

definition np_mean :: "real list \<Rightarrow> real option" where
  "np_mean xs = (if xs = [] then None else Some (sum_list xs / real (length xs)))"

definition np_var :: "real list \<Rightarrow> real option" where
  "np_var xs =
     (if xs = [] then None
      else let arrmean = sum_list xs / real (length xs);
               x = map (\<lambda>a. a - arrmean) xs
           in Some (sum_list (map (\<lambda>d. d * d) x) / real (length xs)))"

subsection \<open>\<open>generate_sobol_sequence\<close> and \<open>simulate_short_rate_quasi_mc\<close>\<close>

text \<open>
  \<open>Sobol(d=dim, scramble=True).random(num_samples)\<close> is the parameter \<open>sobol\<close>: it fails
  or gives a matrix of uniform samples, read as \<open>u i j\<close> for row \<open>i\<close> and column \<open>j\<close>.
  \<open>stats.norm.ppf\<close> is the parameter \<open>norm_ppf\<close>, applied to every entry.
  In \<open>num_steps = int(round(total_time / time_step))\<close> the quotient is the double the
  division returns, \<open>float_div total_time time_step\<close>; a zero divisor raises
  ZeroDivisionError.
\<close>

type_synonym sampler = "int \<Rightarrow> nat \<Rightarrow> pyerror + (nat \<Rightarrow> nat \<Rightarrow> real)"

definition generate_sobol_sequence ::
  "sampler \<Rightarrow> int \<Rightarrow> nat \<Rightarrow> pyerror + (nat \<Rightarrow> nat \<Rightarrow> real)" where
  "generate_sobol_sequence sobol d num_samples = sobol d num_samples"

text \<open>
  The body of the loop \<open>for step in range(1, num_steps + 1)\<close>:
  \<^verbatim>\<open>
  dW = normal_samples[:, step - 1] * np.sqrt(time_step)
  dr = KAPPA * (THETA - rate_paths[:, step - 1]) * time_step + volatility * dW
  rate_paths[:, step] = rate_paths[:, step - 1] + dr
  \<close>
\<close>

definition euler_step ::
  "real \<Rightarrow> real \<Rightarrow> (nat \<Rightarrow> nat \<Rightarrow> real) \<Rightarrow> ndarray2 \<Rightarrow> nat \<Rightarrow> ndarray2" where
  "euler_step volatility time_step normal_samples rate_paths step =
     (let dW = map (\<lambda>i. normal_samples i (step - 1) * sqrt time_step)
                 [0..<length (rows rate_paths)];
          dr = map2 (\<lambda>r w. KAPPA * (THETA - r) * time_step + volatility * w)
                 (column rate_paths (step - 1)) dW
      in set_column rate_paths step
           (map2 (\<lambda>r d. r + d) (column rate_paths (step - 1)) dr))"

definition simulate_short_rate_quasi_mc ::
  "(real \<Rightarrow> real \<Rightarrow> real) \<Rightarrow> sampler \<Rightarrow> (real \<Rightarrow> real) \<Rightarrow> real \<Rightarrow> pynum \<Rightarrow> real \<Rightarrow> nat \<Rightarrow> real
     \<Rightarrow> pyerror + (ndarray2 \<times> real list)" where
  "simulate_short_rate_quasi_mc float_div sobol norm_ppf total_time initial_rate volatility
       num_simulations time_step =
     (if time_step = 0 then Inl ZeroDivisionError
      else
        let num_steps = round_half_even (float_div total_time time_step) in
        case np_linspace 0 total_time (num_steps + 1) of
          Inl e \<Rightarrow> Inl e
        | Inr time_grid \<Rightarrow>
            (case generate_sobol_sequence sobol num_steps num_simulations of
               Inl e \<Rightarrow> Inl e
             | Inr sobol_samples \<Rightarrow>
                 let normal_samples = (\<lambda>i j. norm_ppf (sobol_samples i j));
                     rate_paths = np_full num_simulations (nat (num_steps + 1)) initial_rate
                 in Inr (foldl (euler_step volatility time_step normal_samples) rate_paths
                           [1..<nat (num_steps + 1)],
                         time_grid)))"

subsection \<open>\<open>compute_discount_factors\<close> and \<open>monte_carlo_bond_price\<close>\<close>

definition compute_discount_factors :: "ndarray2 \<Rightarrow> real list \<Rightarrow> pyerror + ndarray2" where
  "compute_discount_factors rate_paths time_grid =
     (let dt = np_diff time_grid in
      case mul_broadcast (drop_last_column rate_paths) dt of
        Inl e \<Rightarrow> Inl e
      | Inr weighted \<Rightarrow>
          let integral = np_cumsum_axis1 weighted;
              discount_factors = map_array (\<lambda>x. exp (- x)) integral
          in Inr discount_factors)"

text \<open>
  The two outputs are \<open>None\<close> when they are \<open>nan\<close>: \<open>round\<close> with a digits argument
  returns a \<open>nan\<close> unchanged.
\<close>

definition monte_carlo_bond_price ::
  "(real \<Rightarrow> real \<Rightarrow> real) \<Rightarrow> sampler \<Rightarrow> (real \<Rightarrow> real) \<Rightarrow> real \<Rightarrow> pynum \<Rightarrow> pynum \<Rightarrow> nat \<Rightarrow> real
     \<Rightarrow> pyerror + (real option \<times> real option)" where
  "monte_carlo_bond_price float_div sobol norm_ppf total_time initial_rate volatility
       num_simulations time_step =
     (case simulate_short_rate_quasi_mc float_div sobol norm_ppf total_time initial_rate
             (num_val volatility) num_simulations time_step of
        Inl e \<Rightarrow> Inl e
      | Inr (rate_paths, time_grid) \<Rightarrow>
          (case compute_discount_factors rate_paths time_grid of
             Inl e \<Rightarrow> Inl e
           | Inr discount_factors \<Rightarrow>
               (case last_column discount_factors of
                  Inl e \<Rightarrow> Inl e
                | Inr final_discount_factors \<Rightarrow>
                    let mc_estimate = np_mean final_discount_factors;
                        closed_form_price =
                          vasicek_bond_price total_time (num_val initial_rate)
                            (num_val volatility) KAPPA THETA;
                        adjusted_mc_estimate =
                          (case (mc_estimate, np_mean final_discount_factors) of
                             (Some a, Some b) \<Rightarrow> Some (a - (b - closed_form_price))
                           | _ \<Rightarrow> None);
                        variance = np_var final_discount_factors
                    in Inr (map_option (\<lambda>x. py_round x 10) adjusted_mc_estimate,
                            map_option (\<lambda>x. py_round x 10) variance))))"

subsection \<open>\<open>run\<close>\<close>

text \<open>
  The scenario record and the solver configuration are dictionaries; \<open>solver_params\<close>
  has the default \<open>None\<close>, on which \<open>.get\<close> raises AttributeError. \<open>extra_arguments\<close> is
  never read. \<open>monte_carlo_bond_price\<close> is called with its default \<open>time_step = 0.01\<close>.
\<close>

record result =
  bond_price :: "real option"
  variance :: "real option"

definition run ::
  "(real \<Rightarrow> real \<Rightarrow> real) \<Rightarrow> sampler \<Rightarrow> (real \<Rightarrow> real) \<Rightarrow> (string \<rightharpoonup> pynum)
     \<Rightarrow> (string \<rightharpoonup> int) option \<Rightarrow> pyerror + result" where
  "run float_div sobol norm_ppf input_data solver_params =
     (case input_data ''Initial Interest Rate'' of
        None \<Rightarrow> Inl (KeyError ''Initial Interest Rate'')
      | Some initial_rate \<Rightarrow>
     (case input_data ''Volatility'' of
        None \<Rightarrow> Inl (KeyError ''Volatility'')
      | Some volatility \<Rightarrow>
     (case input_data ''Maturity Time'' of
        None \<Rightarrow> Inl (KeyError ''Maturity Time'')
      | Some maturity_time \<Rightarrow>
          let bond_maturity = num_val maturity_time / 12 in
     (case solver_params of
        None \<Rightarrow> Inl AttributeError
      | Some params \<Rightarrow>
          let original_num_simulations =
                (case params ''NumberOfSimulations'' of None \<Rightarrow> 10000 | Some v \<Rightarrow> v) in
     (case next_power_of_2 original_num_simulations of
        Inl e \<Rightarrow> Inl e
      | Inr num_simulations \<Rightarrow>
     (case monte_carlo_bond_price float_div sobol norm_ppf bond_maturity initial_rate
             volatility (nat num_simulations) (1 / 100) of
        Inl e \<Rightarrow> Inl e
      | Inr (estimated_price, variance_value) \<Rightarrow>
          Inr \<lparr>bond_price = estimated_price, variance = variance_value\<rparr>))))))"

subsection \<open>Auxiliary notions for the proofs\<close>

text \<open>
  What one pass of the loop body does to a single row, and the shape invariant of an
  array: every row has as many entries as the array has columns.
\<close>

definition row_step ::
  "dtype \<Rightarrow> real \<Rightarrow> real \<Rightarrow> (nat \<Rightarrow> real) \<Rightarrow> real list \<Rightarrow> nat \<Rightarrow> real list" where
  "row_step dt vol ts z row step =
     row[step := astype dt (row ! (step - 1)
               + (KAPPA * (THETA - row ! (step - 1)) * ts + vol * (z (step - 1) * sqrt ts)))]"

definition well_shaped :: "ndarray2 \<Rightarrow> bool" where
  "well_shaped a = (\<forall>row \<in> set (rows a). length row = ncols a)"

section \<open>Properties\<close>

subsection \<open>The simulation-count normaliser\<close>

lemma ceil_log2_ceillog2:
  assumes "1 \<le> n"
  shows "nat \<lceil>log 2 (real_of_int n)\<rceil> = ceillog2 (nat n)"
proof -
  have "real_of_int n = real (nat n)"
    using assms by simp
  then show ?thesis
    using assms by (simp add: ceillog2_def)
qed

lemma next_power_of_2_pos:
  assumes "1 \<le> n" and "n < 2 ^ 64"
  shows "next_power_of_2 n = Inr (min (2 ^ ceillog2 (nat n)) 65536)"
  using assms by (simp add: next_power_of_2_def ceil_log2_ceillog2 MAX_SIMULATIONS_def)

lemma int_le_two_power_ceillog2:
  assumes "1 \<le> n"
  shows "n \<le> 2 ^ ceillog2 (nat n)"
proof -
  have "nat n \<le> 2 ^ ceillog2 (nat n)"
    by (rule le_two_power_ceillog2)
  then have "int (nat n) \<le> int (2 ^ ceillog2 (nat n))"
    by (simp only: of_nat_le_iff)
  then show ?thesis
    using assms by simp
qed

lemma ceillog2_le_of_int_le:
  assumes "1 \<le> n" and "n \<le> 2 ^ j"
  shows "ceillog2 (nat n) \<le> j"
proof -
  have "int (nat n) \<le> int (2 ^ j)"
    using assms by simp
  then have "nat n \<le> 2 ^ j"
    by (simp only: of_nat_le_iff)
  moreover have "0 < nat n"
    using assms by simp
  ultimately show ?thesis
    by (simp add: ceillog2_le_iff)
qed

text \<open>
  Below \<open>2\<^sup>6\<^sup>4\<close> the normaliser does what its docstring says: for every positive integer
  \<open>n \<le> 65536\<close> it returns the smallest power of two that is at least \<open>n\<close>, and for
  \<open>65536 < n < 2\<^sup>6\<^sup>4\<close> it returns the cap.
\<close>

lemma next_power_of_2_below_2_64:
  "(1 \<le> n \<and> n \<le> 65536 \<longrightarrow>
      (\<exists>k. next_power_of_2 n = Inr (2 ^ k) \<and> n \<le> 2 ^ k \<and>
           (\<forall>j. n \<le> 2 ^ j \<longrightarrow> (2::int) ^ k \<le> 2 ^ j)))
   \<and> (65536 < n \<and> n < 2 ^ 64 \<longrightarrow> next_power_of_2 n = Inr 65536)"
proof (intro conjI impI)
  assume range: "1 \<le> n \<and> n \<le> 65536"
  let ?k = "ceillog2 (nat n)"
  have pos: "1 \<le> n"
    using range by simp
  have small: "n < 2 ^ 64"
    using range by simp
  have "n \<le> 2 ^ 16"
    using range by simp
  then have "?k \<le> 16"
    using pos by (rule ceillog2_le_of_int_le [rotated])
  then have "(2::int) ^ ?k \<le> 2 ^ 16"
    by (rule power_increasing) simp
  then have ret: "next_power_of_2 n = Inr (2 ^ ?k)"
    using pos small by (simp add: next_power_of_2_pos)
  have ge: "n \<le> 2 ^ ?k"
    using pos by (rule int_le_two_power_ceillog2)
  have least: "\<forall>j. n \<le> 2 ^ j \<longrightarrow> (2::int) ^ ?k \<le> 2 ^ j"
  proof (intro allI impI)
    fix j
    assume "n \<le> 2 ^ j"
    then have "?k \<le> j"
      using pos by (rule ceillog2_le_of_int_le [rotated])
    then show "(2::int) ^ ?k \<le> 2 ^ j"
      by (rule power_increasing) simp
  qed
  show "\<exists>k. next_power_of_2 n = Inr (2 ^ k) \<and> n \<le> 2 ^ k \<and>
           (\<forall>j. n \<le> 2 ^ j \<longrightarrow> (2::int) ^ k \<le> 2 ^ j)"
    using ret ge least by blast
next
  assume big: "65536 < n \<and> n < 2 ^ 64"
  then have pos: "1 \<le> n" and above: "65536 < n"
    by simp_all
  have "\<not> ceillog2 (nat n) \<le> 16"
  proof
    assume "ceillog2 (nat n) \<le> 16"
    then have "nat n \<le> 2 ^ 16"
      using pos by (simp add: ceillog2_le_iff)
    then show False
      using above by simp
  qed
  then have "17 \<le> ceillog2 (nat n)"
    by simp
  then have "(2::int) ^ 17 \<le> 2 ^ ceillog2 (nat n)"
    by (rule power_increasing) simp
  then show "next_power_of_2 n = Inr 65536"
    using pos big by (simp add: next_power_of_2_pos)
qed

lemma next_power_of_2_examples:
  "next_power_of_2 1000 = Inr 1024 \<and> next_power_of_2 1000000 = Inr 65536"
proof -
  have "ceillog2 1000 = 10"
    by (rule ceillog2_eqI) simp_all
  then have "next_power_of_2 1000 = Inr 1024"
    by (simp add: next_power_of_2_pos)
  then show ?thesis
    using next_power_of_2_below_2_64 [of 1000000] by simp
qed

text \<open>
  C2. The claim: for every positive integer \<open>n \<le> 65536\<close>, \<open>next_power_of_2 n\<close> returns the
  smallest power of two that is at least \<open>n\<close>, and for every integer \<open>n > 65536\<close> it returns
  exactly 65536, a request above the cap being truncated, not rejected. The docstring of
  the function and the comment at its call promise the same cap. The first part holds,
  and so does the second below \<open>2\<^sup>6\<^sup>4\<close> (\<open>next_power_of_2_below_2_64\<close>). From \<open>2\<^sup>6\<^sup>4\<close> on
  the request is rejected: \<open>np.log2\<close> raises TypeError before \<open>min\<close> can cap anything.
\<close>

theorem next_power_of_2_huge_request_rejected:
  "next_power_of_2 (2 ^ 64) = Inl TypeError
   \<and> next_power_of_2 (2 ^ 64 - 1) = Inr 65536"
  using next_power_of_2_below_2_64 [of "2 ^ 64 - 1"]
  by (simp add: next_power_of_2_def)

text \<open>
  C3, as stated: a request of 0 or of 1 yields at least one sample. It fails at 0:
  \<open>np.log2(0)\<close> is \<open>-inf\<close>, and \<open>int(-inf)\<close> raises OverflowError.
\<close>

theorem next_power_of_2_zero_counterexample:
  "\<not> (\<exists>v. next_power_of_2 0 = Inr v \<and> 1 \<le> v)"
  by (simp add: next_power_of_2_def)

text \<open>
  C3, amended: a request of 1 yields exactly one sample; a request of 0 yields none,
  the call fails with OverflowError.
\<close>

theorem next_power_of_2_one_and_zero:
  "next_power_of_2 1 = Inr 1 \<and> next_power_of_2 0 = Inl OverflowError"
  by (simp add: next_power_of_2_def MAX_SIMULATIONS_def)

subsection \<open>The path simulator\<close>

lemma euler_step_dtype: "dtype (euler_step vol ts Z a step) = dtype a"
  by (simp add: euler_step_def set_column_def Let_def)

lemma euler_step_ncols: "ncols (euler_step vol ts Z a step) = ncols a"
  by (simp add: euler_step_def set_column_def Let_def)

lemma euler_step_length: "length (rows (euler_step vol ts Z a step)) = length (rows a)"
  by (simp add: euler_step_def set_column_def column_def Let_def)

lemma euler_step_row:
  assumes "i < length (rows a)"
  shows "rows (euler_step vol ts Z a step) ! i =
           (rows a ! i)[step := astype (dtype a)
              (rows a ! i ! (step - 1)
               + (KAPPA * (THETA - rows a ! i ! (step - 1)) * ts
                  + vol * (Z i (step - 1) * sqrt ts)))]"
  using assms by (simp add: euler_step_def set_column_def column_def Let_def)

lemma foldl_euler_dtype:
  "dtype (foldl (euler_step vol ts Z) a steps) = dtype a"
  by (induction steps arbitrary: a) (simp_all add: euler_step_dtype)

lemma foldl_euler_ncols:
  "ncols (foldl (euler_step vol ts Z) a steps) = ncols a"
  by (induction steps arbitrary: a) (simp_all add: euler_step_ncols)

lemma foldl_euler_length:
  "length (rows (foldl (euler_step vol ts Z) a steps)) = length (rows a)"
  by (induction steps arbitrary: a) (simp_all add: euler_step_length)

lemma euler_step_row_step:
  assumes "i < length (rows a)"
  shows "rows (euler_step vol ts Z a step) ! i = row_step (dtype a) vol ts (Z i) (rows a ! i) step"
  using assms by (simp add: euler_step_row row_step_def)

lemma foldl_euler_row:
  assumes "i < length (rows a)"
  shows "rows (foldl (euler_step vol ts Z) a steps) ! i =
           foldl (row_step (dtype a) vol ts (Z i)) (rows a ! i) steps"
  using assms
proof (induction steps arbitrary: a)
  case Nil
  then show ?case by simp
next
  case (Cons s steps)
  let ?b = "euler_step vol ts Z a s"
  have "i < length (rows ?b)"
    using Cons.prems by (simp add: euler_step_length)
  then have "rows (foldl (euler_step vol ts Z) ?b steps) ! i =
      foldl (row_step (dtype ?b) vol ts (Z i)) (rows ?b ! i) steps"
    by (rule Cons.IH)
  also have "dtype ?b = dtype a"
    by (rule euler_step_dtype)
  also have "rows ?b ! i = row_step (dtype a) vol ts (Z i) (rows a ! i) s"
    using Cons.prems by (rule euler_step_row_step)
  finally show ?case
    by simp
qed

lemma row_step_length: "length (row_step dt vol ts z row step) = length row"
  by (simp add: row_step_def)

lemma foldl_row_step_length:
  "length (foldl (row_step dt vol ts z) row steps) = length row"
  by (induction steps arbitrary: row) (simp_all add: row_step_length)

lemma foldl_upt_Suc:
  "foldl f a [1..<Suc (Suc k)] = f (foldl f a [1..<Suc k]) (Suc k)"
  by simp

lemma row_step_nth_same:
  assumes "step < length row"
  shows "row_step dt vol ts z row step ! step =
           astype dt (row ! (step - 1)
             + (KAPPA * (THETA - row ! (step - 1)) * ts + vol * (z (step - 1) * sqrt ts)))"
  using assms by (simp add: row_step_def)

lemma row_step_nth_other:
  assumes "t \<noteq> step"
  shows "row_step dt vol ts z row step ! t = row ! t"
  using assms by (simp add: row_step_def)

lemma row_recurrence:
  assumes "k < length row" and "1 \<le> t" and "t \<le> k"
  shows "foldl (row_step dt vol ts z) row [1..<Suc k] ! t =
           astype dt (foldl (row_step dt vol ts z) row [1..<Suc k] ! (t - 1)
             + (KAPPA * (THETA - foldl (row_step dt vol ts z) row [1..<Suc k] ! (t - 1)) * ts
                + vol * (z (t - 1) * sqrt ts)))"
  using assms
proof (induction k)
  case 0
  then show ?case by simp
next
  case (Suc k)
  let ?R = "foldl (row_step dt vol ts z) row [1..<Suc k]"
  let ?R' = "foldl (row_step dt vol ts z) row [1..<Suc (Suc k)]"
  have len: "length ?R = length row"
    by (rule foldl_row_step_length)
  have unfold: "?R' = row_step dt vol ts z ?R (Suc k)"
    by (rule foldl_upt_Suc)
  have prev: "?R' ! (t - 1) = ?R ! (t - 1)"
    unfolding unfold using Suc.prems by (intro row_step_nth_other) simp
  show ?case
  proof (cases "t = Suc k")
    case True
    have "Suc k < length ?R"
      using Suc.prems len by simp
    then have "?R' ! Suc k = astype dt (?R ! (Suc k - 1)
             + (KAPPA * (THETA - ?R ! (Suc k - 1)) * ts + vol * (z (Suc k - 1) * sqrt ts)))"
      unfolding unfold by (rule row_step_nth_same)
    then show ?thesis
      using prev True by simp
  next
    case False
    then have "t \<le> k"
      using Suc.prems by simp
    moreover have "k < length row"
      using Suc.prems by simp
    ultimately have "?R ! t = astype dt (?R ! (t - 1)
             + (KAPPA * (THETA - ?R ! (t - 1)) * ts + vol * (z (t - 1) * sqrt ts)))"
      using Suc.prems(2) by (intro Suc.IH)
    moreover have "?R' ! t = ?R ! t"
      unfolding unfold using False by (rule row_step_nth_other)
    ultimately show ?thesis
      using prev by simp
  qed
qed

lemma row_step_first:
  assumes "1 \<le> step"
  shows "row_step dt vol ts z row step ! 0 = row ! 0"
  using assms by (simp add: row_step_def)

lemma foldl_row_step_first:
  assumes "\<forall>s \<in> set steps. 1 \<le> s"
  shows "foldl (row_step dt vol ts z) row steps ! 0 = row ! 0"
  using assms by (induction steps arbitrary: row) (simp_all add: row_step_first)

lemma simulate_Inr:
  assumes "simulate_short_rate_quasi_mc float_div sobol norm_ppf T r0 vol n ts = Inr (P, g)"
  shows "ts \<noteq> 0 \<and> np_linspace 0 T (round_half_even (float_div T ts) + 1) = Inr g \<and>
         (\<exists>U. sobol (round_half_even (float_div T ts)) n = Inr U \<and>
              P = foldl (euler_step vol ts (\<lambda>i j. norm_ppf (U i j)))
                    (np_full n (nat (round_half_even (float_div T ts) + 1)) r0)
                    [1..<nat (round_half_even (float_div T ts) + 1)])"
  using assms
  by (auto simp add: simulate_short_rate_quasi_mc_def generate_sobol_sequence_def Let_def
      split: if_splits sum.splits)

lemma simulate_returns:
  assumes "ts \<noteq> 0" and "- 1 \<le> round_half_even (float_div T ts)"
    and "sobol (round_half_even (float_div T ts)) n = Inr U"
  shows "\<exists>g. np_linspace 0 T (round_half_even (float_div T ts) + 1) = Inr g \<and>
         simulate_short_rate_quasi_mc float_div sobol norm_ppf T r0 vol n ts =
           Inr (foldl (euler_step vol ts (\<lambda>i j. norm_ppf (U i j)))
                    (np_full n (nat (round_half_even (float_div T ts) + 1)) r0)
                    [1..<nat (round_half_even (float_div T ts) + 1)], g)"
proof -
  define k where "k = round_half_even (float_div T ts)"
  have "\<exists>g. np_linspace 0 T (k + 1) = Inr g"
    using assms(2) by (simp add: np_linspace_def k_def)
  then obtain g where g: "np_linspace 0 T (k + 1) = Inr g"
    by blast
  have "simulate_short_rate_quasi_mc float_div sobol norm_ppf T r0 vol n ts =
           Inr (foldl (euler_step vol ts (\<lambda>i j. norm_ppf (U i j)))
                    (np_full n (nat (k + 1)) r0) [1..<nat (k + 1)], g)"
    using assms(1) assms(3) g
    by (simp add: simulate_short_rate_quasi_mc_def generate_sobol_sequence_def Let_def
        k_def [symmetric])
  then show ?thesis
    using g by (simp add: k_def)
qed

lemma np_linspace_length:
  assumes "np_linspace start stop num = Inr g"
  shows "length g = nat num"
  using assms by (auto simp add: np_linspace_def split: if_splits)

lemma np_full_rows_length: "length (rows (np_full n m v)) = n"
  by (simp add: np_full_def)

lemma np_full_row: "i < n \<Longrightarrow> rows (np_full n m v) ! i = replicate m (num_val v)"
  by (simp add: np_full_def)

lemma np_full_ncols: "ncols (np_full n m v) = m"
  by (simp add: np_full_def)

lemma np_full_dtype_eq: "dtype (np_full n m v) = np_full_dtype v"
  by (simp add: np_full_def)

lemma foldl_euler_row_length:
  assumes "i < length (rows a)"
  shows "length (rows (foldl (euler_step vol ts Z) a steps) ! i) = length (rows a ! i)"
  using assms by (simp add: foldl_euler_row foldl_row_step_length)

lemma foldl_euler_well_shaped:
  assumes "well_shaped a"
  shows "well_shaped (foldl (euler_step vol ts Z) a steps)"
proof -
  let ?b = "foldl (euler_step vol ts Z) a steps"
  have "length row = ncols ?b" if "row \<in> set (rows ?b)" for row
  proof -
    from that obtain i where i: "i < length (rows ?b)" and row: "row = rows ?b ! i"
      by (auto simp add: in_set_conv_nth)
    have ia: "i < length (rows a)"
      using i by (simp add: foldl_euler_length)
    then have "rows a ! i \<in> set (rows a)"
      by simp
    then have "length (rows a ! i) = ncols a"
      using assms by (simp add: well_shaped_def)
    then show ?thesis
      using ia row by (simp add: foldl_euler_row_length foldl_euler_ncols)
  qed
  then show ?thesis
    by (simp add: well_shaped_def)
qed

lemma np_full_well_shaped: "well_shaped (np_full n m v)"
  by (simp add: well_shaped_def np_full_def)

lemma simulate_shape:
  assumes "simulate_short_rate_quasi_mc float_div sobol norm_ppf T r0 vol n ts = Inr (P, g)"
  shows "well_shaped P \<and> ncols P = length g \<and> length (rows P) = n \<and>
         length g = nat (round_half_even (float_div T ts) + 1) \<and> dtype P = np_full_dtype r0"
proof -
  from simulate_Inr [OF assms] obtain U where
    g: "np_linspace 0 T (round_half_even (float_div T ts) + 1) = Inr g" and
    P: "P = foldl (euler_step vol ts (\<lambda>i j. norm_ppf (U i j)))
                    (np_full n (nat (round_half_even (float_div T ts) + 1)) r0)
                    [1..<nat (round_half_even (float_div T ts) + 1)]"
    by blast
  have "length g = nat (round_half_even (float_div T ts) + 1)"
    using g by (rule np_linspace_length)
  then show ?thesis
    unfolding P
    by (simp add: foldl_euler_well_shaped np_full_well_shaped foldl_euler_ncols np_full_ncols
        foldl_euler_length np_full_rows_length foldl_euler_dtype np_full_dtype_eq)
qed

subsection \<open>Discounting\<close>

lemma cumsum_from_length: "length (cumsum_from acc xs) = length xs"
  by (induction xs arbitrary: acc) simp_all

lemma cumsum_from_nth:
  assumes "k < length xs"
  shows "cumsum_from acc xs ! k = acc + (\<Sum>j<Suc k. xs ! j)"
  using assms
proof (induction xs arbitrary: acc k)
  case Nil
  then show ?case by simp
next
  case (Cons x xs)
  show ?case
  proof (cases k)
    case 0
    then show ?thesis by simp
  next
    case (Suc k')
    then have "k' < length xs"
      using Cons.prems by simp
    then have "cumsum_from (acc + x) xs ! k' = (acc + x) + (\<Sum>j<Suc k'. xs ! j)"
      by (rule Cons.IH)
    moreover have "(\<Sum>j<Suc (Suc k'). (x # xs) ! j) = x + (\<Sum>j<Suc k'. xs ! j)"
      by (simp add: sum.lessThan_Suc_shift del: sum.lessThan_Suc)
    ultimately show ?thesis
      using Suc by simp
  qed
qed

lemma np_diff_length: "length (np_diff g) = length g - 1"
  by (simp add: np_diff_def)

lemma np_diff_nth:
  assumes "Suc j < length g"
  shows "np_diff g ! j = g ! Suc j - g ! j"
  using assms by (simp add: np_diff_def nth_tl nth_butlast)

lemma compute_discount_factors_rows:
  assumes "ncols a = length g"
  shows "compute_discount_factors a g =
           Inr \<lparr>dtype = float64, ncols = length g - 1,
                rows = map (\<lambda>row. map (\<lambda>x. exp (- x))
                         (cumsum_from 0 (map2 (\<lambda>x y. x * y) (butlast row) (np_diff g))))
                       (rows a)\<rparr>"
  using assms
  by (simp add: compute_discount_factors_def mul_broadcast_def drop_last_column_def
      np_cumsum_axis1_def map_array_def np_diff_length Let_def)

lemma discount_row_nth:
  assumes "length row = length g" and "Suc k < length g"
  shows "map (\<lambda>x. exp (- x)) (cumsum_from 0 (map2 (\<lambda>x y. x * y) (butlast row) (np_diff g))) ! k
           = exp (- (\<Sum>j<Suc k. row ! j * (g ! Suc j - g ! j)))"
proof -
  let ?w = "map2 (\<lambda>x y. x * y) (butlast row) (np_diff g)"
  have len: "length ?w = length g - 1"
    using assms by (simp add: np_diff_length)
  have nth: "?w ! j = row ! j * (g ! Suc j - g ! j)" if "j < Suc k" for j
    using that assms by (simp add: np_diff_length np_diff_nth nth_butlast)
  have "cumsum_from 0 ?w ! k = 0 + (\<Sum>j<Suc k. ?w ! j)"
    using len assms by (intro cumsum_from_nth) simp
  also have "(\<Sum>j<Suc k. ?w ! j) = (\<Sum>j<Suc k. row ! j * (g ! Suc j - g ! j))"
    by (rule sum.cong) (simp_all only: nth lessThan_iff)
  finally show ?thesis
    using len assms by (simp add: cumsum_from_length)
qed

subsection \<open>The recurrence of the path simulator\<close>

text \<open>
  Every stored rate is the Euler update of the rate before it, cast to the element type
  of the array. In a \<open>float64\<close> array the cast is the identity.
\<close>

lemma simulate_recurrence_dtype:
  assumes sim: "simulate_short_rate_quasi_mc float_div sobol norm_ppf T r0 vol n ts = Inr (P, g)"
    and U: "sobol (round_half_even (float_div T ts)) n = Inr U"
    and i: "i < n" and t1: "1 \<le> t" and tk: "int t \<le> round_half_even (float_div T ts)"
  shows "rows P ! i ! t =
           astype (np_full_dtype r0)
             (rows P ! i ! (t - 1)
              + (KAPPA * (THETA - rows P ! i ! (t - 1)) * ts
                 + vol * (norm_ppf (U i (t - 1)) * sqrt ts)))"
proof -
  define k where "k = nat (round_half_even (float_div T ts))"
  have m: "nat (round_half_even (float_div T ts) + 1) = Suc k"
    using tk by (simp add: k_def)
  have tk': "t \<le> k"
    using tk by (simp add: k_def)
  let ?Z = "\<lambda>i j. norm_ppf (U i j)"
  let ?a = "np_full n (Suc k) r0"
  have P: "P = foldl (euler_step vol ts ?Z) ?a [1..<Suc k]"
    using simulate_Inr [OF sim] U by (auto simp add: m)
  have ia: "i < length (rows ?a)"
    using i by (simp add: np_full_rows_length)
  have row: "rows P ! i =
      foldl (row_step (np_full_dtype r0) vol ts (?Z i)) (replicate (Suc k) (num_val r0)) [1..<Suc k]"
    unfolding P using ia i by (simp add: foldl_euler_row np_full_dtype_eq np_full_row)
  have "k < length (replicate (Suc k) (num_val r0))"
    by simp
  then show ?thesis
    unfolding row using t1 tk' by (rule row_recurrence)
qed

lemma simulate_recurrence_float64:
  assumes "simulate_short_rate_quasi_mc float_div sobol norm_ppf T (PyFloat r0) vol n ts = Inr (P, g)"
    and "sobol (round_half_even (float_div T ts)) n = Inr U"
    and "i < n" and "1 \<le> t" and "int t \<le> round_half_even (float_div T ts)"
  shows "rows P ! i ! t =
           rows P ! i ! (t - 1) + KAPPA * (THETA - rows P ! i ! (t - 1)) * ts
             + vol * norm_ppf (U i (t - 1)) * sqrt ts"
  using simulate_recurrence_dtype [OF assms] by simp

lemma sqrt_hundredth: "sqrt (1 / 100) = 1 / 10"
  by (rule real_sqrt_unique) (simp_all add: power2_eq_square)

lemma round_half_even_1: "round_half_even 1 = 1"
  by (simp add: round_half_even_def)

text \<open>
  C4. The claim: in every ensemble the simulator produces, for every row and shock matrix,
  \<open>rate[t] = rate[t-1] + kappa * (theta - rate[t-1]) * dt + sigma * shock[t] * sqrt(dt)\<close>
  holds exactly at every step. It holds when the initial rate is a float
  (\<open>simulate_recurrence_float64\<close>). When the initial rate arrives as an integer, \<open>np.full\<close>
  makes an integer array and every update is truncated on assignment. At the input below
  (initial rate the integer 0, volatility 0.01, one step of 0.01, one path with shock 1) the
  recurrence asks for \<open>rate[1] = 0.00103\<close> and the program stores 0.
\<close>

theorem simulate_int_rate_breaks_recurrence:
  "simulate_short_rate_quasi_mc (\<lambda>a b. a / b) (\<lambda>d n. Inr (\<lambda>i j. 1 / 2)) (\<lambda>u. 1) (1 / 100) (PyInt 0)
       (1 / 100) 1 (1 / 100)
     = Inr (\<lparr>dtype = int64, ncols = 2, rows = [[0, 0]]\<rparr>, [0, 1 / 100])
   \<and> (0::real) + KAPPA * (THETA - 0) * (1 / 100) + (1 / 100) * 1 * sqrt (1 / 100) = 103 / 100000"
  by (simp add: simulate_short_rate_quasi_mc_def generate_sobol_sequence_def round_half_even_1
      np_linspace_def np_full_def euler_step_def column_def set_column_def sqrt_hundredth
      trunc_toward_zero_def KAPPA_def THETA_def Let_def numeral_2_eq_2)

subsection \<open>The initial column\<close>

lemma simulate_float_example2:
  "simulate_short_rate_quasi_mc (\<lambda>a b. a / b) (\<lambda>d n. Inr (\<lambda>i j. 1 / 2)) (\<lambda>u. u + 1 / 2) (1 / 100)
       (PyFloat (2 / 100)) (1 / 100) 1 (1 / 100)
     = Inr (\<lparr>dtype = float64, ncols = 2, rows = [[2 / 100, 2101 / 100000]]\<rparr>,
            [0, 1 / 100])"
  by (simp add: simulate_short_rate_quasi_mc_def generate_sobol_sequence_def round_half_even_1
      np_linspace_def np_full_def euler_step_def column_def set_column_def sqrt_hundredth
      KAPPA_def THETA_def Let_def numeral_2_eq_2)

lemma euler_step_column_0:
  assumes "1 \<le> step"
  shows "column (euler_step vol ts Z a step) 0 = column a 0"
proof (rule nth_equalityI)
  show "length (column (euler_step vol ts Z a step) 0) = length (column a 0)"
    by (simp add: column_def euler_step_length)
next
  fix i
  assume "i < length (column (euler_step vol ts Z a step) 0)"
  then have i: "i < length (rows a)"
    by (simp add: column_def euler_step_length)
  then have "rows (euler_step vol ts Z a step) ! i ! 0 = rows a ! i ! 0"
    using assms by (simp add: euler_step_row_step row_step_first)
  then show "column (euler_step vol ts Z a step) 0 ! i = column a 0 ! i"
    using i by (simp add: column_def euler_step_length)
qed

text \<open>
  C6. In every ensemble the simulator produces, every row holds the initial rate at
  column 0, and no pass of the loop (steps \<open>1, 2, \<dots>\<close>) changes column 0.
\<close>

theorem initial_column_is_initial_rate:
  "(simulate_short_rate_quasi_mc float_div sobol norm_ppf T r0 vol n ts = Inr (P, g)
      \<and> 0 < ncols P
      \<longrightarrow> length (rows P) = n \<and> column P 0 = replicate n (num_val r0))
   \<and> (1 \<le> step \<longrightarrow> column (euler_step vol ts Z a step) 0 = column a 0)"
proof (intro conjI impI)
  assume asm: "simulate_short_rate_quasi_mc float_div sobol norm_ppf T r0 vol n ts = Inr (P, g)
      \<and> 0 < ncols P"
  then have sim: "simulate_short_rate_quasi_mc float_div sobol norm_ppf T r0 vol n ts = Inr (P, g)"
    and cols: "0 < ncols P"
    by simp_all
  define m where "m = nat (round_half_even (float_div T ts) + 1)"
  have m: "0 < m"
    using cols simulate_shape [OF sim] by (simp add: m_def)
  obtain U where P: "P = foldl (euler_step vol ts (\<lambda>i j. norm_ppf (U i j)))
                    (np_full n m r0) [1..<m]"
    using simulate_Inr [OF sim] by (auto simp add: m_def)
  show len: "length (rows P) = n"
    using simulate_shape [OF sim] by simp
  show "column P 0 = replicate n (num_val r0)"
  proof (rule nth_equalityI)
    show "length (column P 0) = length (replicate n (num_val r0))"
      using len by (simp add: column_def)
  next
    fix i
    assume "i < length (column P 0)"
    then have i: "i < n"
      using len by (simp add: column_def)
    then have "rows P ! i =
        foldl (row_step (np_full_dtype r0) vol ts (\<lambda>j. norm_ppf (U i j)))
          (replicate m (num_val r0)) [1..<m]"
      unfolding P by (simp add: foldl_euler_row np_full_rows_length np_full_dtype_eq np_full_row)
    then have "rows P ! i ! 0 = replicate m (num_val r0) ! 0"
      by (simp add: foldl_row_step_first)
    then show "column P 0 ! i = replicate n (num_val r0) ! i"
      using i len m by (simp add: column_def)
  qed
next
  assume "1 \<le> step"
  then show "column (euler_step vol ts Z a step) 0 = column a 0"
    by (rule euler_step_column_0)
qed

theorem initial_column_is_initial_rate_witness:
  "simulate_short_rate_quasi_mc (\<lambda>a b. a / b) (\<lambda>d n. Inr (\<lambda>i j. 1 / 2)) (\<lambda>u. u + 1 / 2) (1 / 100)
       (PyFloat (2 / 100)) (1 / 100) 1 (1 / 100)
     = Inr (\<lparr>dtype = float64, ncols = 2, rows = [[2 / 100, 2101 / 100000]]\<rparr>, [0, 1 / 100])
   \<and> column \<lparr>dtype = float64, ncols = 2, rows = [[2 / 100, 2101 / 100000]]\<rparr> 0 = [2 / 100]
   \<and> column (euler_step (1 / 100) (1 / 100) (\<lambda>i j. 1)
               \<lparr>dtype = float64, ncols = 2, rows = [[2 / 100, 2101 / 100000]]\<rparr> 1) 0
       = [2 / 100]"
  using simulate_float_example2
    initial_column_is_initial_rate
      [of "\<lambda>a b. a / b" "\<lambda>d n. Inr (\<lambda>i j. 1 / 2)" "\<lambda>u. u + 1 / 2" "1 / 100"
          "PyFloat (2 / 100)" "1 / 100" 1
          "1 / 100" "\<lparr>dtype = float64, ncols = 2, rows = [[2 / 100, 2101 / 100000]]\<rparr>"
          "[0, 1 / 100]" 1 "\<lambda>i j. 1"
          "\<lparr>dtype = float64, ncols = 2, rows = [[2 / 100, 2101 / 100000]]\<rparr>"]
  by (simp add: column_def)

subsection \<open>The discount factors as a left Riemann sum\<close>

lemma discount_factors_cells:
  assumes "well_shaped rate_paths" and "ncols rate_paths = length time_grid"
  shows "\<exists>D. compute_discount_factors rate_paths time_grid = Inr D \<and>
           length (rows D) = length (rows rate_paths) \<and>
           (\<forall>i k. i < length (rows rate_paths) \<and> Suc k < length time_grid \<longrightarrow>
              rows D ! i ! k =
                exp (- (\<Sum>j<Suc k. rows rate_paths ! i ! j * (time_grid ! Suc j - time_grid ! j)))) \<and>
           (2 \<le> length time_grid \<longrightarrow>
              (\<exists>fs. last_column D = Inr fs \<and> length fs = length (rows rate_paths) \<and>
                 (\<forall>i. i < length (rows rate_paths) \<longrightarrow>
                    fs ! i =
                      exp (- (\<Sum>j<length time_grid - 1.
                               rows rate_paths ! i ! j * (time_grid ! Suc j - time_grid ! j))))))"
proof -
  let ?f = "\<lambda>row. map (\<lambda>x. exp (- x))
             (cumsum_from 0 (map2 (\<lambda>x y. x * y) (butlast row) (np_diff time_grid)))"
  let ?D = "\<lparr>dtype = float64, ncols = length time_grid - 1, rows = map ?f (rows rate_paths)\<rparr>"
  have D: "compute_discount_factors rate_paths time_grid = Inr ?D"
    using assms(2) by (rule compute_discount_factors_rows)
  have row_len: "length (rows rate_paths ! i) = length time_grid"
    if "i < length (rows rate_paths)" for i
    using that assms by (simp add: well_shaped_def)
  have cell: "rows ?D ! i ! k =
      exp (- (\<Sum>j<Suc k. rows rate_paths ! i ! j * (time_grid ! Suc j - time_grid ! j)))"
    if "i < length (rows rate_paths)" and "Suc k < length time_grid" for i k
    using that row_len by (simp add: discount_row_nth)
  have f_len: "length (?f row) = length time_grid - 1" if "length row = length time_grid" for row
    using that by (simp add: cumsum_from_length np_diff_length)
  have terminal: "\<exists>fs. last_column ?D = Inr fs \<and> length fs = length (rows rate_paths) \<and>
                 (\<forall>i. i < length (rows rate_paths) \<longrightarrow>
                    fs ! i =
                      exp (- (\<Sum>j<length time_grid - 1.
                               rows rate_paths ! i ! j * (time_grid ! Suc j - time_grid ! j))))"
    if two: "2 \<le> length time_grid"
  proof -
    obtain m where m: "length time_grid = Suc (Suc m)"
      using two by (metis Suc_le_D numeral_2_eq_2 Suc_le_mono)
    have lc: "last_column ?D = Inr (map last (rows ?D))"
      using m by (simp add: last_column_def)
    have "map last (rows ?D) ! i =
        exp (- (\<Sum>j<length time_grid - 1.
                  rows rate_paths ! i ! j * (time_grid ! Suc j - time_grid ! j)))"
      if i: "i < length (rows rate_paths)" for i
    proof -
      have len: "length (?f (rows rate_paths ! i)) = Suc m"
        using f_len [OF row_len [OF i]] m by simp
      then have "?f (rows rate_paths ! i) \<noteq> []"
        by auto
      then have "last (?f (rows rate_paths ! i)) = ?f (rows rate_paths ! i) ! m"
        using len by (simp add: last_conv_nth)
      also have "\<dots> = rows ?D ! i ! m"
        using i by simp
      also have "\<dots> = exp (- (\<Sum>j<Suc m.
                  rows rate_paths ! i ! j * (time_grid ! Suc j - time_grid ! j)))"
        using i m by (intro cell) simp_all
      finally show ?thesis
        using i m by simp
    qed
    then show ?thesis
      using lc by simp
  qed
  show ?thesis
    using D cell terminal by (intro exI [of _ ?D]) simp
qed

subsection \<open>The estimator\<close>

lemma monte_carlo_Inr:
  assumes "monte_carlo_bond_price float_div sobol norm_ppf T r0 sigma n ts = Inr (p, v)"
  shows "\<exists>P g D fs.
           simulate_short_rate_quasi_mc float_div sobol norm_ppf T r0 (num_val sigma) n ts = Inr (P, g) \<and>
           compute_discount_factors P g = Inr D \<and>
           last_column D = Inr fs \<and>
           p = (case (np_mean fs, np_mean fs) of
                  (Some a, Some b) \<Rightarrow>
                    Some (py_round (a - (b - vasicek_bond_price T (num_val r0) (num_val sigma)
                                              KAPPA THETA)) 10)
                | _ \<Rightarrow> None) \<and>
           v = map_option (\<lambda>x. py_round x 10) (np_var fs)"
  using assms
  by (auto simp add: monte_carlo_bond_price_def Let_def split: sum.splits prod.splits option.splits)

lemma compute_discount_factors_length:
  assumes "compute_discount_factors P g = Inr D"
  shows "length (rows D) = length (rows P)"
  using assms
  by (auto simp add: compute_discount_factors_def mul_broadcast_def drop_last_column_def
      np_cumsum_axis1_def map_array_def Let_def split: if_splits)

lemma last_column_length:
  assumes "last_column D = Inr fs"
  shows "length fs = length (rows D)"
  using assms by (auto simp add: last_column_def split: if_splits)

lemma monte_carlo_sample:
  assumes "monte_carlo_bond_price float_div sobol norm_ppf T r0 sigma n ts = Inr (p, v)"
  shows "\<exists>P g D fs.
           simulate_short_rate_quasi_mc float_div sobol norm_ppf T r0 (num_val sigma) n ts = Inr (P, g) \<and>
           compute_discount_factors P g = Inr D \<and>
           last_column D = Inr fs \<and> length fs = n \<and>
           p = (case (np_mean fs, np_mean fs) of
                  (Some a, Some b) \<Rightarrow>
                    Some (py_round (a - (b - vasicek_bond_price T (num_val r0) (num_val sigma)
                                              KAPPA THETA)) 10)
                | _ \<Rightarrow> None) \<and>
           v = map_option (\<lambda>x. py_round x 10) (np_var fs)"
proof -
  from monte_carlo_Inr [OF assms] obtain P g D fs where
    sim: "simulate_short_rate_quasi_mc float_div sobol norm_ppf T r0 (num_val sigma) n ts = Inr (P, g)" and
    cdf: "compute_discount_factors P g = Inr D" and
    lc: "last_column D = Inr fs" and
    rest: "p = (case (np_mean fs, np_mean fs) of
                  (Some a, Some b) \<Rightarrow>
                    Some (py_round (a - (b - vasicek_bond_price T (num_val r0) (num_val sigma)
                                              KAPPA THETA)) 10)
                | _ \<Rightarrow> None)"
      "v = map_option (\<lambda>x. py_round x 10) (np_var fs)"
    by blast
  have "length fs = n"
    using last_column_length [OF lc] compute_discount_factors_length [OF cdf]
      simulate_shape [OF sim] by simp
  then show ?thesis
    using sim cdf lc rest by blast
qed

lemma monte_carlo_price:
  assumes "monte_carlo_bond_price float_div sobol norm_ppf T r0 sigma n ts = Inr (p, v)" and "0 < n"
  shows "p = Some (py_round (vasicek_bond_price T (num_val r0) (num_val sigma) KAPPA THETA) 10)"
proof -
  from monte_carlo_sample [OF assms(1)] obtain fs where
    len: "length fs = n" and
    p: "p = (case (np_mean fs, np_mean fs) of
                  (Some a, Some b) \<Rightarrow>
                    Some (py_round (a - (b - vasicek_bond_price T (num_val r0) (num_val sigma)
                                              KAPPA THETA)) 10)
                | _ \<Rightarrow> None)"
    by blast
  have "fs \<noteq> []"
    using len assms(2) by auto
  then show ?thesis
    unfolding p by (simp add: np_mean_def)
qed

lemma monte_carlo_returns:
  assumes "0 < n" and "ts \<noteq> 0" and "1 \<le> round_half_even (float_div T ts)"
    and "sobol (round_half_even (float_div T ts)) n = Inr U"
  shows "\<exists>p v. monte_carlo_bond_price float_div sobol norm_ppf T r0 sigma n ts = Inr (p, v)"
proof -
  have "- 1 \<le> round_half_even (float_div T ts)"
    using assms(3) by simp
  from simulate_returns [of ts float_div T sobol n U norm_ppf r0 "num_val sigma",
      OF assms(2) this assms(4)]
  obtain P g where
    sim: "simulate_short_rate_quasi_mc float_div sobol norm_ppf T r0 (num_val sigma) n ts = Inr (P, g)"
    by blast
  have shape: "well_shaped P" "ncols P = length g" "length g = nat (round_half_even (float_div T ts) + 1)"
    using simulate_shape [OF sim] by simp_all
  have two: "2 \<le> length g"
    using shape(3) assms(3) by simp
  let ?D = "\<lparr>dtype = float64, ncols = length g - 1,
             rows = map (\<lambda>row. map (\<lambda>x. exp (- x))
                      (cumsum_from 0 (map2 (\<lambda>x y. x * y) (butlast row) (np_diff g))))
                    (rows P)\<rparr>"
  have "compute_discount_factors P g = Inr ?D"
    using shape(2) by (rule compute_discount_factors_rows)
  moreover have "last_column ?D = Inr (map last (rows ?D))"
    using two by (simp add: last_column_def)
  ultimately show ?thesis
    using sim by (simp add: monte_carlo_bond_price_def Let_def)
qed

lemma next_power_of_2_ge_1:
  assumes "next_power_of_2 x = Inr n"
  shows "1 \<le> n"
proof -
  have "(1::int) \<le> 2 ^ k" for k :: nat
    by simp
  then show ?thesis
    using assms by (auto simp add: next_power_of_2_def MAX_SIMULATIONS_def split: if_splits)
qed


lemma round_half_even_0: "round_half_even 0 = 0"
  by (simp add: round_half_even_def)

lemma py_round_0: "py_round 0 n = 0"
  by (simp add: py_round_def round_half_even_0)

lemma monte_carlo_example:
  "monte_carlo_bond_price (\<lambda>a b. a / b) (\<lambda>d n. Inr (\<lambda>i j. 1 / 2)) (\<lambda>u. 0) (1 / 100)
       (PyFloat (3 / 100)) (PyFloat (1 / 100)) 1 (1 / 100)
     = Inr (Some (py_round (vasicek_bond_price (1 / 100) (3 / 100) (1 / 100) (1 / 10) (3 / 100)) 10),
            Some 0)"
  by (simp add: monte_carlo_bond_price_def
      simulate_short_rate_quasi_mc_def generate_sobol_sequence_def round_half_even_1
      np_linspace_def np_full_def euler_step_def column_def set_column_def
      compute_discount_factors_def np_diff_def drop_last_column_def mul_broadcast_def
      np_cumsum_axis1_def map_array_def last_column_def np_mean_def np_var_def py_round_0
      KAPPA_def THETA_def Let_def numeral_2_eq_2)

text \<open>
  C5. For a path ensemble and a time grid of matching shape (every row has one rate per
  grid point), \<open>compute_discount_factors\<close> returns, for every path \<open>i\<close> and every
  \<open>k < num_steps\<close>, the value \<open>exp (- \<Sum>j\<le>k. rate[i][j] * (grid[j+1] - grid[j]))\<close>: a
  left Riemann sum that never reads the terminal rate. The last column is
  \<open>exp (- \<Sum>j<num_steps. rate[i][j] * (grid[j+1] - grid[j]))\<close>, and it is the sample
  \<open>monte_carlo_bond_price\<close> takes its mean and variance of.
\<close>

theorem compute_discount_factors_left_riemann:
  "(well_shaped rate_paths \<and> ncols rate_paths = length time_grid \<longrightarrow>
      (\<exists>D. compute_discount_factors rate_paths time_grid = Inr D \<and>
           length (rows D) = length (rows rate_paths) \<and>
           (\<forall>i k. i < length (rows rate_paths) \<and> Suc k < length time_grid \<longrightarrow>
              rows D ! i ! k =
                exp (- (\<Sum>j<Suc k. rows rate_paths ! i ! j * (time_grid ! Suc j - time_grid ! j)))) \<and>
           (2 \<le> length time_grid \<longrightarrow>
              (\<exists>fs. last_column D = Inr fs \<and> length fs = length (rows rate_paths) \<and>
                 (\<forall>i. i < length (rows rate_paths) \<longrightarrow>
                    fs ! i =
                      exp (- (\<Sum>j<length time_grid - 1.
                               rows rate_paths ! i ! j * (time_grid ! Suc j - time_grid ! j))))))))
   \<and> (monte_carlo_bond_price float_div sobol norm_ppf T r0 sigma n ts = Inr (p, v) \<longrightarrow>
      (\<exists>P g fs.
          simulate_short_rate_quasi_mc float_div sobol norm_ppf T r0 (num_val sigma) n ts = Inr (P, g) \<and>
          length fs = n \<and>
          (\<forall>i. i < n \<longrightarrow>
             fs ! i = exp (- (\<Sum>j<length g - 1. rows P ! i ! j * (g ! Suc j - g ! j)))) \<and>
          v = map_option (\<lambda>x. py_round x 10) (np_var fs)))"
proof (intro conjI impI)
  assume "well_shaped rate_paths \<and> ncols rate_paths = length time_grid"
  then show "\<exists>D. compute_discount_factors rate_paths time_grid = Inr D \<and>
           length (rows D) = length (rows rate_paths) \<and>
           (\<forall>i k. i < length (rows rate_paths) \<and> Suc k < length time_grid \<longrightarrow>
              rows D ! i ! k =
                exp (- (\<Sum>j<Suc k. rows rate_paths ! i ! j * (time_grid ! Suc j - time_grid ! j)))) \<and>
           (2 \<le> length time_grid \<longrightarrow>
              (\<exists>fs. last_column D = Inr fs \<and> length fs = length (rows rate_paths) \<and>
                 (\<forall>i. i < length (rows rate_paths) \<longrightarrow>
                    fs ! i =
                      exp (- (\<Sum>j<length time_grid - 1.
                               rows rate_paths ! i ! j * (time_grid ! Suc j - time_grid ! j))))))"
    using discount_factors_cells [of rate_paths time_grid] by simp
next
  assume "monte_carlo_bond_price float_div sobol norm_ppf T r0 sigma n ts = Inr (p, v)"
  from monte_carlo_sample [OF this] obtain P g D fs where
    sim: "simulate_short_rate_quasi_mc float_div sobol norm_ppf T r0 (num_val sigma) n ts = Inr (P, g)" and
    cdf: "compute_discount_factors P g = Inr D" and
    lc: "last_column D = Inr fs" and len: "length fs = n" and
    v: "v = map_option (\<lambda>x. py_round x 10) (np_var fs)"
    by blast
  have shape: "well_shaped P" "ncols P = length g" "length (rows P) = n"
    using simulate_shape [OF sim] by simp_all
  have "ncols D = length g - 1"
    using cdf compute_discount_factors_rows [OF shape(2)] by auto
  moreover have "ncols D \<noteq> 0"
    using lc by (auto simp add: last_column_def split: if_splits)
  ultimately have two: "2 \<le> length g"
    by simp
  from discount_factors_cells [OF shape(1) shape(2)] two cdf obtain fs' where
    lc': "last_column D = Inr fs'" and
    cells: "\<forall>i. i < length (rows P) \<longrightarrow>
              fs' ! i = exp (- (\<Sum>j<length g - 1. rows P ! i ! j * (g ! Suc j - g ! j)))"
    by auto
  have "fs' = fs"
    using lc lc' by simp
  then have "\<forall>i. i < n \<longrightarrow>
             fs ! i = exp (- (\<Sum>j<length g - 1. rows P ! i ! j * (g ! Suc j - g ! j)))"
    using cells shape(3) by simp
  then show "\<exists>P g fs.
          simulate_short_rate_quasi_mc float_div sobol norm_ppf T r0 (num_val sigma) n ts = Inr (P, g) \<and>
          length fs = n \<and>
          (\<forall>i. i < n \<longrightarrow>
             fs ! i = exp (- (\<Sum>j<length g - 1. rows P ! i ! j * (g ! Suc j - g ! j)))) \<and>
          v = map_option (\<lambda>x. py_round x 10) (np_var fs)"
    using sim len v by blast
qed

theorem compute_discount_factors_left_riemann_witness:
  "well_shaped \<lparr>dtype = float64, ncols = 2, rows = [[1, 2]]\<rparr>
   \<and> ncols \<lparr>dtype = float64, ncols = 2, rows = [[1, 2]]\<rparr> = length [0, 1 / 2 :: real]
   \<and> (\<exists>D. compute_discount_factors \<lparr>dtype = float64, ncols = 2, rows = [[1, 2]]\<rparr> [0, 1 / 2]
             = Inr D
          \<and> rows D ! 0 ! 0 = exp (- (1 / 2))
          \<and> (\<exists>fs. last_column D = Inr fs \<and> length fs = 1 \<and> fs ! 0 = exp (- (1 / 2))))
   \<and> monte_carlo_bond_price (\<lambda>a b. a / b) (\<lambda>d n. Inr (\<lambda>i j. 1 / 2)) (\<lambda>u. 0) (1 / 100)
         (PyFloat (3 / 100)) (PyFloat (1 / 100)) 1 (1 / 100)
       = Inr (Some (py_round (vasicek_bond_price (1 / 100) (3 / 100) (1 / 100) (1 / 10) (3 / 100)) 10),
              Some 0)
   \<and> (\<exists>P g fs.
          simulate_short_rate_quasi_mc (\<lambda>a b. a / b) (\<lambda>d n. Inr (\<lambda>i j. 1 / 2)) (\<lambda>u. 0) (1 / 100)
            (PyFloat (3 / 100)) (1 / 100) 1 (1 / 100) = Inr (P, g) \<and>
          length fs = 1 \<and>
          fs ! 0 = exp (- (\<Sum>j<length g - 1. rows P ! 0 ! j * (g ! Suc j - g ! j))))"
proof -
  let ?a = "\<lparr>dtype = float64, ncols = 2, rows = [[1, 2]]\<rparr>"
  let ?g = "[0, 1 / 2 :: real]"
  let ?fdiv = "\<lambda>(a::real) (b::real). a / b"
  let ?sobol = "\<lambda>(d::int) (n::nat). Inr (\<lambda>(i::nat) (j::nat). 1 / 2 :: real) :: pyerror + (nat \<Rightarrow> nat \<Rightarrow> real)"
  let ?ppf = "\<lambda>u::real. 0 :: real"
  let ?c = "Some (py_round (vasicek_bond_price (1 / 100) (3 / 100) (1 / 100) (1 / 10) (3 / 100)) 10)"
  note inst = compute_discount_factors_left_riemann
      [of ?a ?g ?fdiv ?sobol ?ppf "1 / 100" "PyFloat (3 / 100)" "PyFloat (1 / 100)" 1 "1 / 100" ?c
          "Some 0"]
  have shaped: "well_shaped ?a"
    by (simp add: well_shaped_def)
  have cols: "ncols ?a = length ?g"
    by simp
  have mc: "monte_carlo_bond_price ?fdiv ?sobol ?ppf (1 / 100) (PyFloat (3 / 100)) (PyFloat (1 / 100))
              1 (1 / 100) = Inr (?c, Some 0)"
    by (rule monte_carlo_example)
  from inst shaped cols obtain D where
    D: "compute_discount_factors ?a ?g = Inr D" and
    cell: "\<forall>i k. i < length (rows ?a) \<and> Suc k < length ?g \<longrightarrow>
              rows D ! i ! k = exp (- (\<Sum>j<Suc k. rows ?a ! i ! j * (?g ! Suc j - ?g ! j)))" and
    terminal: "2 \<le> length ?g \<longrightarrow>
              (\<exists>fs. last_column D = Inr fs \<and> length fs = length (rows ?a) \<and>
                 (\<forall>i. i < length (rows ?a) \<longrightarrow>
                    fs ! i = exp (- (\<Sum>j<length ?g - 1. rows ?a ! i ! j * (?g ! Suc j - ?g ! j)))))"
    by blast
  have "rows D ! 0 ! 0 = exp (- (1 / 2))"
    using cell [rule_format, of 0 0] by simp
  moreover have "\<exists>fs. last_column D = Inr fs \<and> length fs = 1 \<and> fs ! 0 = exp (- (1 / 2))"
    using terminal by auto
  moreover have "\<exists>P g fs.
          simulate_short_rate_quasi_mc ?fdiv ?sobol ?ppf (1 / 100) (PyFloat (3 / 100)) (1 / 100) 1 (1 / 100)
            = Inr (P, g) \<and>
          length fs = 1 \<and>
          fs ! 0 = exp (- (\<Sum>j<length g - 1. rows P ! 0 ! j * (g ! Suc j - g ! j)))"
    using inst mc by fastforce
  ultimately show ?thesis
    using shaped cols D mc by blast
qed

lemma next_power_of_2_1: "next_power_of_2 1 = Inr 1"
  by (simp add: next_power_of_2_def MAX_SIMULATIONS_def)

lemma run_example:
  "run (\<lambda>a b. a / b) (\<lambda>d n. Inr (\<lambda>i j. 1 / 2)) (\<lambda>u. 0)
      [''Initial Interest Rate'' \<mapsto> PyFloat (3 / 100), ''Volatility'' \<mapsto> PyFloat (1 / 100),
       ''Maturity Time'' \<mapsto> PyFloat (12 / 100)]
      (Some [''NumberOfSimulations'' \<mapsto> 1])
    = Inr \<lparr>bond_price =
             Some (py_round (vasicek_bond_price (1 / 100) (3 / 100) (1 / 100) (1 / 10) (3 / 100)) 10),
           variance = Some 0\<rparr>"
  using monte_carlo_example by (simp add: run_def next_power_of_2_1)










subsection \<open>The entry point\<close>

text \<open>
  C7. When the scenario record lacks one of \<open>Initial Interest Rate\<close>, \<open>Volatility\<close>,
  \<open>Maturity Time\<close>, \<open>run\<close> fails with the KeyError of an absent key (the first one in
  that order) and returns no record, whatever the solver configuration is.
\<close>

theorem run_missing_key:
  assumes "input_data ''Initial Interest Rate'' = None \<or> input_data ''Volatility'' = None
           \<or> input_data ''Maturity Time'' = None"
  shows "\<exists>key. (key = ''Initial Interest Rate'' \<or> key = ''Volatility'' \<or> key = ''Maturity Time'')
           \<and> input_data key = None
           \<and> run float_div sobol norm_ppf input_data solver_params = Inl (KeyError key)"
proof (cases "input_data ''Initial Interest Rate''")
  case None
  then have "run float_div sobol norm_ppf input_data solver_params = Inl (KeyError ''Initial Interest Rate'')"
    by (simp add: run_def)
  then show ?thesis
    using None by blast
next
  case rate: (Some r0)
  show ?thesis
  proof (cases "input_data ''Volatility''")
    case None
    then have "run float_div sobol norm_ppf input_data solver_params = Inl (KeyError ''Volatility'')"
      using rate by (simp add: run_def)
    then show ?thesis
      using None by blast
  next
    case vol: (Some sigma)
    then have absent: "input_data ''Maturity Time'' = None"
      using assms rate by simp
    then have "run float_div sobol norm_ppf input_data solver_params = Inl (KeyError ''Maturity Time'')"
      using rate vol by (simp add: run_def)
    then show ?thesis
      using absent by blast
  qed
qed

theorem run_missing_key_witness:
  "[''Initial Interest Rate'' \<mapsto> PyFloat (3 / 100), ''Maturity Time'' \<mapsto> PyInt 12] ''Volatility''
     = None
   \<and> run (\<lambda>a b. a / b) (\<lambda>d n. Inr (\<lambda>i j. 1 / 2)) (\<lambda>u. 0)
        [''Initial Interest Rate'' \<mapsto> PyFloat (3 / 100), ''Maturity Time'' \<mapsto> PyInt 12]
        (Some [''NumberOfSimulations'' \<mapsto> 1024])
      = Inl (KeyError ''Volatility'')"
  using run_missing_key
      [of "[''Initial Interest Rate'' \<mapsto> PyFloat (3 / 100), ''Maturity Time'' \<mapsto> PyInt 12]"
          "\<lambda>a b. a / b" "\<lambda>d n. Inr (\<lambda>i j. 1 / 2)" "\<lambda>u. 0"
          "Some [''NumberOfSimulations'' \<mapsto> 1024]"]
  by auto

text \<open>
  C9. \<open>run\<close> divides \<open>Maturity Time\<close> by 12 and hands the quotient \<open>T\<close> to
  \<open>monte_carlo_bond_price\<close> as the maturity in years; there the simulation grid is built
  for \<open>T\<close> (it has \<open>round(q) + 1\<close> points, \<open>q\<close> being the double quotient of \<open>T\<close> by 0.01
  that the division returns) and the closed-form price is taken at \<open>T\<close>.
\<close>

theorem run_maturity_in_years:
  assumes "input_data ''Initial Interest Rate'' = Some r0"
    and "input_data ''Volatility'' = Some sigma"
    and "input_data ''Maturity Time'' = Some m"
    and "next_power_of_2 (case params ''NumberOfSimulations'' of None \<Rightarrow> 10000 | Some x \<Rightarrow> x)
           = Inr n"
  shows "run float_div sobol norm_ppf input_data (Some params) =
           (case monte_carlo_bond_price float_div sobol norm_ppf (num_val m / 12) r0 sigma
                   (nat n) (1 / 100) of
              Inl e \<Rightarrow> Inl e
            | Inr (p, v) \<Rightarrow> Inr \<lparr>bond_price = p, variance = v\<rparr>)
         \<and> (\<forall>res. run float_div sobol norm_ppf input_data (Some params) = Inr res \<longrightarrow>
              (\<exists>P g. simulate_short_rate_quasi_mc float_div sobol norm_ppf (num_val m / 12) r0
                        (num_val sigma) (nat n) (1 / 100) = Inr (P, g)
                    \<and> length g = nat (round_half_even (float_div (num_val m / 12) (1 / 100)) + 1)
                    \<and> ncols P = length g)
              \<and> bond_price res =
                  Some (py_round (vasicek_bond_price (num_val m / 12) (num_val r0) (num_val sigma)
                                    KAPPA THETA) 10))"
proof (intro conjI allI impI)
  show eq: "run float_div sobol norm_ppf input_data (Some params) =
           (case monte_carlo_bond_price float_div sobol norm_ppf (num_val m / 12) r0 sigma (nat n) (1 / 100) of
              Inl e \<Rightarrow> Inl e
            | Inr (p, v) \<Rightarrow> Inr \<lparr>bond_price = p, variance = v\<rparr>)"
    using assms by (simp add: run_def)
  fix res
  assume "run float_div sobol norm_ppf input_data (Some params) = Inr res"
  then obtain p v where
    mc: "monte_carlo_bond_price float_div sobol norm_ppf (num_val m / 12) r0 sigma (nat n) (1 / 100)
           = Inr (p, v)" and
    res: "res = \<lparr>bond_price = p, variance = v\<rparr>"
    unfolding eq by (auto split: sum.splits prod.splits)
  from monte_carlo_sample [OF mc] obtain P g where
    sim: "simulate_short_rate_quasi_mc float_div sobol norm_ppf (num_val m / 12) r0 (num_val sigma)
            (nat n) (1 / 100) = Inr (P, g)"
    by blast
  then show "\<exists>P g. simulate_short_rate_quasi_mc float_div sobol norm_ppf (num_val m / 12) r0 (num_val sigma)
                        (nat n) (1 / 100) = Inr (P, g)
                    \<and> length g = nat (round_half_even (float_div (num_val m / 12) (1 / 100)) + 1)
                    \<and> ncols P = length g"
    using simulate_shape [OF sim] by blast
  have "0 < nat n"
    using next_power_of_2_ge_1 [OF assms(4)] by simp
  then have "p = Some (py_round (vasicek_bond_price (num_val m / 12) (num_val r0) (num_val sigma)
                                   KAPPA THETA) 10)"
    by (rule monte_carlo_price [OF mc])
  then show "bond_price res =
                  Some (py_round (vasicek_bond_price (num_val m / 12) (num_val r0) (num_val sigma)
                                    KAPPA THETA) 10)"
    using res by simp
qed

text \<open>
  Two instances. At \<open>Maturity Time = 0.12\<close> the division is exact and there is one step.
  At \<open>Maturity Time = 3.54\<close> the double quotient of \<open>3.54 / 12\<close> by 0.01 is
  \<open>8303511812964351 / 2\<^sup>4\<^sup>8\<close> (printed as 29.499999999999996), below the tie 29.5 of the
  exact quotient: the program makes 29 steps, and the grid has 30 points.
\<close>

theorem run_maturity_in_years_witness:
  "run (\<lambda>a b. a / b) (\<lambda>d n. Inr (\<lambda>i j. 1 / 2)) (\<lambda>u. 0)
      [''Initial Interest Rate'' \<mapsto> PyFloat (3 / 100), ''Volatility'' \<mapsto> PyFloat (1 / 100),
       ''Maturity Time'' \<mapsto> PyFloat (12 / 100)]
      (Some [''NumberOfSimulations'' \<mapsto> 1])
    = (case monte_carlo_bond_price (\<lambda>a b. a / b) (\<lambda>d n. Inr (\<lambda>i j. 1 / 2)) (\<lambda>u. 0)
              (12 / 100 / 12) (PyFloat (3 / 100)) (PyFloat (1 / 100)) 1 (1 / 100) of
         Inl e \<Rightarrow> Inl e
       | Inr (p, v) \<Rightarrow> Inr \<lparr>bond_price = p, variance = v\<rparr>)
   \<and> run (\<lambda>a b. a / b) (\<lambda>d n. Inr (\<lambda>i j. 1 / 2)) (\<lambda>u. 0)
      [''Initial Interest Rate'' \<mapsto> PyFloat (3 / 100), ''Volatility'' \<mapsto> PyFloat (1 / 100),
       ''Maturity Time'' \<mapsto> PyFloat (12 / 100)]
      (Some [''NumberOfSimulations'' \<mapsto> 1])
    = Inr \<lparr>bond_price =
             Some (py_round (vasicek_bond_price (1 / 100) (3 / 100) (1 / 100) (1 / 10) (3 / 100)) 10),
           variance = Some 0\<rparr>
   \<and> (\<exists>res P g.
         run (\<lambda>a b. 8303511812964351 / 281474976710656) (\<lambda>d n. Inr (\<lambda>i j. 1 / 2)) (\<lambda>u. 0)
           [''Initial Interest Rate'' \<mapsto> PyFloat (3 / 100), ''Volatility'' \<mapsto> PyFloat (1 / 100),
            ''Maturity Time'' \<mapsto> PyFloat (354 / 100)]
           (Some [''NumberOfSimulations'' \<mapsto> 1]) = Inr res
         \<and> simulate_short_rate_quasi_mc (\<lambda>a b. 8303511812964351 / 281474976710656)
             (\<lambda>d n. Inr (\<lambda>i j. 1 / 2)) (\<lambda>u. 0) (354 / 100 / 12) (PyFloat (3 / 100)) (1 / 100)
             1 (1 / 100) = Inr (P, g)
         \<and> length g = 30)"
proof -
  let ?fdiv = "\<lambda>(a::real) (b::real). 8303511812964351 / 281474976710656 :: real"
  let ?sobol = "\<lambda>(d::int) (n::nat). Inr (\<lambda>(i::nat) (j::nat). 1 / 2 :: real) :: pyerror + (nat \<Rightarrow> nat \<Rightarrow> real)"
  let ?ppf = "\<lambda>u::real. 0 :: real"
  let ?input = "[''Initial Interest Rate'' \<mapsto> PyFloat (3 / 100),
                ''Volatility'' \<mapsto> PyFloat (1 / 100),
                ''Maturity Time'' \<mapsto> PyFloat (354 / 100)]"
  let ?params = "[''NumberOfSimulations'' \<mapsto> (1::int)]"
  have exact: "run (\<lambda>a b. a / b) (\<lambda>d n. Inr (\<lambda>i j. 1 / 2)) (\<lambda>u. 0)
      [''Initial Interest Rate'' \<mapsto> PyFloat (3 / 100), ''Volatility'' \<mapsto> PyFloat (1 / 100),
       ''Maturity Time'' \<mapsto> PyFloat (12 / 100)]
      (Some [''NumberOfSimulations'' \<mapsto> 1])
    = (case monte_carlo_bond_price (\<lambda>a b. a / b) (\<lambda>d n. Inr (\<lambda>i j. 1 / 2)) (\<lambda>u. 0)
              (12 / 100 / 12) (PyFloat (3 / 100)) (PyFloat (1 / 100)) 1 (1 / 100) of
         Inl e \<Rightarrow> Inl e
       | Inr (p, v) \<Rightarrow> Inr \<lparr>bond_price = p, variance = v\<rparr>)
   \<and> run (\<lambda>a b. a / b) (\<lambda>d n. Inr (\<lambda>i j. 1 / 2)) (\<lambda>u. 0)
      [''Initial Interest Rate'' \<mapsto> PyFloat (3 / 100), ''Volatility'' \<mapsto> PyFloat (1 / 100),
       ''Maturity Time'' \<mapsto> PyFloat (12 / 100)]
      (Some [''NumberOfSimulations'' \<mapsto> 1])
    = Inr \<lparr>bond_price =
             Some (py_round (vasicek_bond_price (1 / 100) (3 / 100) (1 / 100) (1 / 10) (3 / 100)) 10),
           variance = Some 0\<rparr>"
    using run_example next_power_of_2_1
      run_maturity_in_years
        [of "[''Initial Interest Rate'' \<mapsto> PyFloat (3 / 100), ''Volatility'' \<mapsto> PyFloat (1 / 100),
              ''Maturity Time'' \<mapsto> PyFloat (12 / 100)]"
            "PyFloat (3 / 100)" "PyFloat (1 / 100)" "PyFloat (12 / 100)"
            "[''NumberOfSimulations'' \<mapsto> 1]" 1 "\<lambda>a b. a / b" "\<lambda>d n. Inr (\<lambda>i j. 1 / 2)" "\<lambda>u. 0"]
    by (simp add: KAPPA_def THETA_def)
  have count: "next_power_of_2 (case ?params ''NumberOfSimulations'' of None \<Rightarrow> 10000 | Some x \<Rightarrow> x)
                 = Inr 1"
    by (simp add: next_power_of_2_1)
  note inst = run_maturity_in_years
      [of ?input "PyFloat (3 / 100)" "PyFloat (1 / 100)" "PyFloat (354 / 100)" ?params 1
          ?fdiv ?sobol ?ppf, OF _ _ _ count]
  have "\<exists>p v. monte_carlo_bond_price ?fdiv ?sobol ?ppf (354 / 100 / 12) (PyFloat (3 / 100))
                 (PyFloat (1 / 100)) 1 (1 / 100) = Inr (p, v)"
    by (rule monte_carlo_returns [where U = "\<lambda>i j. 1 / 2"])
      (simp_all add: round_half_even_def)
  then obtain p v where
    "monte_carlo_bond_price ?fdiv ?sobol ?ppf (354 / 100 / 12) (PyFloat (3 / 100))
       (PyFloat (1 / 100)) 1 (1 / 100) = Inr (p, v)"
    by blast
  then have ret: "run ?fdiv ?sobol ?ppf ?input (Some ?params) = Inr \<lparr>bond_price = p, variance = v\<rparr>"
    using inst by simp
  then have "\<exists>P g. simulate_short_rate_quasi_mc ?fdiv ?sobol ?ppf (354 / 100 / 12)
                     (PyFloat (3 / 100)) (1 / 100) 1 (1 / 100) = Inr (P, g)
                   \<and> length g = 30"
    using inst by (auto simp add: round_half_even_def)
  then show ?thesis
    using exact ret by blast
qed

lemma next_power_of_2_default: "next_power_of_2 10000 = Inr 16384"
proof -
  have "ceillog2 10000 = 14"
    by (rule ceillog2_eqI) simp_all
  then show ?thesis
    by (simp add: next_power_of_2_pos)
qed

text \<open>
  C10. With the solver configuration left at its default \<open>None\<close>, \<open>run\<close> fails with
  AttributeError on every scenario record that has its three keys, whatever the sampler
  would do: no simulation takes place. The default of 10000 simulations (16384 paths) is
  what a dictionary without the key \<open>NumberOfSimulations\<close> gives.
\<close>

theorem run_without_solver_params:
  assumes "input_data ''Initial Interest Rate'' = Some r0"
    and "input_data ''Volatility'' = Some sigma"
    and "input_data ''Maturity Time'' = Some m"
  shows "run float_div sobol norm_ppf input_data None = Inl AttributeError
         \<and> (\<forall>params. params ''NumberOfSimulations'' = None \<longrightarrow>
              run float_div sobol norm_ppf input_data (Some params) =
                run float_div sobol norm_ppf input_data (Some (params(''NumberOfSimulations'' \<mapsto> 10000)))
              \<and> run float_div sobol norm_ppf input_data (Some params) =
                (case monte_carlo_bond_price float_div sobol norm_ppf (num_val m / 12) r0 sigma 16384
                        (1 / 100) of
                   Inl e \<Rightarrow> Inl e
                 | Inr (p, v) \<Rightarrow> Inr \<lparr>bond_price = p, variance = v\<rparr>))"
  using assms by (simp add: run_def next_power_of_2_default)

theorem run_without_solver_params_witness:
  "run (\<lambda>a b. a / b) (\<lambda>d n. Inr (\<lambda>i j. 1 / 2)) (\<lambda>u. 0)
      [''Initial Interest Rate'' \<mapsto> PyFloat (3 / 100), ''Volatility'' \<mapsto> PyFloat (1 / 100),
       ''Maturity Time'' \<mapsto> PyInt 12]
      None
    = Inl AttributeError
   \<and> run (\<lambda>a b. a / b) (\<lambda>d n. Inr (\<lambda>i j. 1 / 2)) (\<lambda>u. 0)
      [''Initial Interest Rate'' \<mapsto> PyFloat (3 / 100), ''Volatility'' \<mapsto> PyFloat (1 / 100),
       ''Maturity Time'' \<mapsto> PyInt 12]
      (Some Map.empty)
    = run (\<lambda>a b. a / b) (\<lambda>d n. Inr (\<lambda>i j. 1 / 2)) (\<lambda>u. 0)
      [''Initial Interest Rate'' \<mapsto> PyFloat (3 / 100), ''Volatility'' \<mapsto> PyFloat (1 / 100),
       ''Maturity Time'' \<mapsto> PyInt 12]
      (Some [''NumberOfSimulations'' \<mapsto> 10000])"
  using run_without_solver_params
      [of "[''Initial Interest Rate'' \<mapsto> PyFloat (3 / 100), ''Volatility'' \<mapsto> PyFloat (1 / 100),
            ''Maturity Time'' \<mapsto> PyInt 12]"
          "PyFloat (3 / 100)" "PyFloat (1 / 100)" "PyInt 12" "\<lambda>a b. a / b"
          "\<lambda>d n. Inr (\<lambda>i j. 1 / 2)" "\<lambda>u. 0"]
  by simp

end
